theory Spec2Isabelle
  imports Main
begin

section \<open>Carousel and lightbox (ContentBlock.tsx, ImageLightbox.tsx)\<close>

text \<open>
  The \<open>ImageLightbox\<close> component owns two state cells, \<open>currentIndex\<close> and \<open>mounted\<close>.
  The \<open>ContentBlock\<close> component owns \<open>activeIndex\<close> and \<open>lightboxOpen\<close> and renders the
  lightbox as a child only while \<open>lightboxOpen\<close> holds, so the child instance is an option:
  \<open>None\<close> while it is not in the tree. The image sequence is a prop that no handler
  changes; it is the parameter \<open>imgs\<close> of every handler. Indices are JavaScript numbers
  that only ever hold integers, hence \<open>int\<close> (\<open>images.length - 1\<close> is \<open>-1\<close> on the empty
  sequence). Both components call their handlers \<open>handlePrevious\<close> and \<open>handleNext\<close>;
  those of the lightbox carry the prefix \<open>lb_\<close> here.
\<close>

record ImageLightbox_state =
  currentIndex :: int
  mounted :: bool

record ContentBlock_state =
  activeIndex :: int
  lightboxOpen :: bool
  lightbox :: "ImageLightbox_state option"

text \<open>\<open>useState(0)\<close>, \<open>useState(false)\<close>: the state of a freshly rendered block.\<close>

definition ContentBlock_init :: ContentBlock_state where
  "ContentBlock_init = \<lparr>activeIndex = 0, lightboxOpen = False, lightbox = None\<rparr>"

text \<open>
  One render of \<open>ContentBlock\<close> after a state change, with the effects of the child.
  \<open>prevInitial\<close> is the \<open>initialIndex\<close> prop of the previous render.
  \<^item> \<open>lightboxOpen\<close> false: \<open>{lightboxOpen && <ImageLightbox .../>}\<close> renders no child.
  \<^item> child not yet in the tree: it mounts with \<open>useState(initialIndex)\<close>, where
    \<open>initialIndex = activeIndex\<close>; the mount effect sets \<open>mounted\<close>.
  \<^item> child already in the tree: the effect with dependency \<open>[initialIndex]\<close> runs
    \<open>setCurrentIndex(initialIndex)\<close> when the prop differs from the previous render.
\<close>

definition render :: "int \<Rightarrow> ContentBlock_state \<Rightarrow> ContentBlock_state" where
  "render prevInitial s =
     (if lightboxOpen s then
        (case lightbox s of
           None \<Rightarrow> s\<lparr>lightbox := Some \<lparr>currentIndex = activeIndex s, mounted = True\<rparr>\<rparr>
         | Some l \<Rightarrow>
             if activeIndex s \<noteq> prevInitial
             then s\<lparr>lightbox := Some (l\<lparr>currentIndex := activeIndex s\<rparr>)\<rparr>
             else s)
      else s\<lparr>lightbox := None\<rparr>)"

subsection \<open>Handlers of ContentBlock\<close>

definition handlePrevious :: "'a list \<Rightarrow> ContentBlock_state \<Rightarrow> ContentBlock_state" where
  "handlePrevious imgs s =
     render (activeIndex s)
       (s\<lparr>activeIndex :=
            (if activeIndex s > 0 then activeIndex s - 1 else int (length imgs) - 1)\<rparr>)"

definition handleNext :: "'a list \<Rightarrow> ContentBlock_state \<Rightarrow> ContentBlock_state" where
  "handleNext imgs s =
     render (activeIndex s)
       (s\<lparr>activeIndex :=
            (if activeIndex s < int (length imgs) - 1 then activeIndex s + 1 else 0)\<rparr>)"

text \<open>The dots: \<open>onClick={() => setActiveIndex(index)}\<close>.\<close>

definition setActiveIndex :: "int \<Rightarrow> ContentBlock_state \<Rightarrow> ContentBlock_state" where
  "setActiveIndex index s = render (activeIndex s) (s\<lparr>activeIndex := index\<rparr>)"

definition handleImageClick :: "ContentBlock_state \<Rightarrow> ContentBlock_state" where
  "handleImageClick s = render (activeIndex s) (s\<lparr>lightboxOpen := True\<rparr>)"

text \<open>The \<open>onClose\<close> prop handed to the lightbox: \<open>() => setLightboxOpen(false)\<close>.\<close>

definition onClose :: "ContentBlock_state \<Rightarrow> ContentBlock_state" where
  "onClose s = render (activeIndex s) (s\<lparr>lightboxOpen := False\<rparr>)"

subsection \<open>Handlers of ImageLightbox\<close>

text \<open>
  They act on the child instance; with no instance in the tree there is nothing to call.
  A change of \<open>currentIndex\<close> re-renders the child only: the props stay as they are.
\<close>

definition lb_update :: "(int \<Rightarrow> int) \<Rightarrow> ContentBlock_state \<Rightarrow> ContentBlock_state" where
  "lb_update f s =
     (case lightbox s of
        None \<Rightarrow> s
      | Some l \<Rightarrow> s\<lparr>lightbox := Some (l\<lparr>currentIndex := f (currentIndex l)\<rparr>)\<rparr>)"

definition lb_handlePrevious :: "'a list \<Rightarrow> ContentBlock_state \<Rightarrow> ContentBlock_state" where
  "lb_handlePrevious imgs =
     lb_update (\<lambda>prev. if prev > 0 then prev - 1 else int (length imgs) - 1)"

definition lb_handleNext :: "'a list \<Rightarrow> ContentBlock_state \<Rightarrow> ContentBlock_state" where
  "lb_handleNext imgs =
     lb_update (\<lambda>prev. if prev < int (length imgs) - 1 then prev + 1 else 0)"

text \<open>The thumbnail strip: \<open>setCurrentIndex(idx)\<close>.\<close>

definition setCurrentIndex :: "int \<Rightarrow> ContentBlock_state \<Rightarrow> ContentBlock_state" where
  "setCurrentIndex idx = lb_update (\<lambda>_. idx)"

text \<open>
  A \<open>keydown\<close> event on the document. Both listeners exist only while the child is in the
  tree (its \<open>isOpen\<close> prop is \<open>lightboxOpen\<close>, true whenever it is rendered).
  \<open>handleEscape\<close> is registered whenever \<open>isOpen\<close>; \<open>handleKeyNav\<close> only if also
  \<open>images.length > 1\<close>. They run in registration order.
\<close>

definition handleEscape :: "string \<Rightarrow> ContentBlock_state \<Rightarrow> ContentBlock_state" where
  "handleEscape key s = (if key = ''Escape'' then onClose s else s)"

definition handleKeyNav :: "'a list \<Rightarrow> string \<Rightarrow> ContentBlock_state \<Rightarrow> ContentBlock_state" where
  "handleKeyNav imgs key s =
     (let s1 = (if key = ''ArrowLeft'' then lb_handlePrevious imgs s else s)
      in if key = ''ArrowRight'' then lb_handleNext imgs s1 else s1)"

definition keydown :: "'a list \<Rightarrow> string \<Rightarrow> ContentBlock_state \<Rightarrow> ContentBlock_state" where
  "keydown imgs key s =
     (case lightbox s of
        None \<Rightarrow> s
      | Some _ \<Rightarrow>
          (let s1 = handleEscape key s
           in if length imgs > 1 then handleKeyNav imgs key s1 else s1))"

section \<open>Content block editor (ContentBlockEditor.tsx)\<close>

datatype ContentBlockType = Title | Context

text \<open>
  The text the user types is a JavaScript string: a sequence of UTF-16 code units, each a
  number below 65536. Texts that are only compared, joined and shown (file names, links,
  image references, messages) are plain strings.
\<close>

type_synonym js_string = "nat list"

text \<open>
  An array of links can be sparse. A position of it is a hole (no element at all), or it
  holds \<open>undefined\<close> or a string.
\<close>

datatype slot = Hole | Undefined | Link string

text \<open>The component's state cells, one field per \<open>useState\<close>.\<close>

record editor =
  type :: ContentBlockType
  content :: js_string
  hasDuration :: bool
  duration :: js_string
  hasImages :: bool
  images :: "string list"
  imageLinks :: "slot list"
  isUploading :: bool
  previewIndex :: int

text \<open>
  The optional \<open>initialData\<close> prop; an absent optional field is \<open>None\<close>. Its links are
  whatever array the caller holds, which may be one that an earlier save has emitted.
\<close>

record initialData =
  init_type :: ContentBlockType
  init_content :: js_string
  init_duration :: "js_string option"
  init_images :: "string list option"
  init_imageLinks :: "slot list option"

text \<open>
  What a handler does to the outside: the dialogs it shows, the callbacks of its props it
  invokes (\<open>onSave\<close> with its five arguments, absent ones as \<open>None\<close>), and the requests
  it sends. A handler returns them in order, with the state it leaves.
\<close>

record File =
  file_name :: string
  file_type :: string
  file_size :: nat

datatype effect =
    Alert string
  | OnSave ContentBlockType js_string "js_string option" "string list option" "slot list option"
  | OnClose
  | Fetch File string

text \<open>
  \<open>String.prototype.trim\<close> strips the white space and the line terminators of
  ECMAScript from both ends: tab, line feed, vertical tab, form feed, carriage return,
  space, no-break space, the Unicode space separators (U+1680, U+2000 to U+200A, U+202F,
  U+205F, U+3000), the line and paragraph separators and the byte order mark.
\<close>

definition is_space :: "nat \<Rightarrow> bool" where
  "is_space c \<longleftrightarrow>
     c \<in> {0x09, 0x0A, 0x0B, 0x0C, 0x0D, 0x20, 0xA0, 0x1680, 0x2028, 0x2029, 0x202F, 0x205F,
          0x3000, 0xFEFF}
     \<or> (0x2000 \<le> c \<and> c \<le> 0x200A)"

definition trim :: "js_string \<Rightarrow> js_string" where
  "trim s = rev (dropWhile is_space (rev (dropWhile is_space s)))"

text \<open>
  Arrays with holes. The spread \<open>[...xs]\<close> reads every position, so a hole becomes
  \<open>undefined\<close>. The assignment \<open>xs[index] = v\<close> replaces a position of the array, or
  lengthens the array to \<open>index + 1\<close> and leaves holes between the old end and \<open>index\<close>;
  with a negative \<open>index\<close> it sets a property and leaves the elements as they are (the
  indices of the editor are positions of \<open>images\<close>, far below the largest array index).
  \<open>xs.filter((_, i) => i !== index)\<close> calls the test for the positions that hold an element
  only: it skips the holes, and its result has none.
\<close>

definition spread :: "slot list \<Rightarrow> slot list" where
  "spread xs = map (\<lambda>x. case x of Hole \<Rightarrow> Undefined | _ \<Rightarrow> x) xs"

definition array_set :: "int \<Rightarrow> slot \<Rightarrow> slot list \<Rightarrow> slot list" where
  "array_set index v xs =
     (if index < 0 then xs
      else if nat index < length xs then xs[nat index := v]
      else xs @ replicate (nat index - length xs) Hole @ [v])"

definition filter_links_not_index :: "int \<Rightarrow> slot list \<Rightarrow> slot list" where
  "filter_links_not_index index xs =
     map snd (filter (\<lambda>(i, x). x \<noteq> Hole \<and> int i \<noteq> index) (enumerate 0 xs))"

text \<open>The effect on \<open>[initialData, isOpen]\<close>: load the block being edited, or the defaults.\<close>

definition loadInitial :: "initialData option \<Rightarrow> editor \<Rightarrow> editor" where
  "loadInitial initial s =
     (case initial of
        Some d \<Rightarrow>
          s\<lparr>type := init_type d,
            content := init_content d,
            hasDuration := (case init_duration d of None \<Rightarrow> False | Some x \<Rightarrow> x \<noteq> []),
            duration := (case init_duration d of None \<Rightarrow> [] | Some x \<Rightarrow> x),
            hasImages := (case init_images d of None \<Rightarrow> False | Some xs \<Rightarrow> length xs > 0),
            images := (case init_images d of None \<Rightarrow> [] | Some xs \<Rightarrow> xs),
            imageLinks := (case init_imageLinks d of None \<Rightarrow> [] | Some xs \<Rightarrow> xs),
            previewIndex := 0\<rparr>
      | None \<Rightarrow>
          s\<lparr>type := Title, content := [], hasDuration := False, duration := [],
            hasImages := False, images := [], imageLinks := [], previewIndex := 0\<rparr>)"

text \<open>\<open>isEditing\<close> is \<open>!!initialData\<close>.\<close>

definition handleClose :: "bool \<Rightarrow> editor \<Rightarrow> effect list \<times> editor" where
  "handleClose isEditing s =
     ([OnClose],
      if \<not> isEditing
      then s\<lparr>type := Title, content := [], hasDuration := False, duration := [],
             hasImages := False, images := [], imageLinks := [], previewIndex := 0\<rparr>
      else s)"

definition handleSave :: "bool \<Rightarrow> editor \<Rightarrow> effect list \<times> editor" where
  "handleSave isEditing s =
     (if trim (content s) = [] \<and> length (images s) = 0
      then ([Alert ''Please add either text or at least one image''], s)
      else
        (OnSave (type s) (content s)
           (if hasDuration s \<and> trim (duration s) \<noteq> [] then Some (duration s) else None)
           (if hasImages s \<and> length (images s) > 0 then Some (images s) else None)
           (if hasImages s \<and> length (imageLinks s) > 0 then Some (imageLinks s) else None)
         # fst (handleClose isEditing s),
         snd (handleClose isEditing s)))"

text \<open>The check box: \<open>onChange={(e) => setHasImages(e.target.checked)}\<close>.\<close>

definition setHasImages :: "bool \<Rightarrow> editor \<Rightarrow> editor" where
  "setHasImages checked s = s\<lparr>hasImages := checked\<rparr>"

text \<open>
  \<open>xs.filter((_, i) => i !== index)\<close> on \<open>images\<close>, an array without holes (it is built
  from parsed JSON, from spreads and from \<open>filter\<close> only): \<open>i\<close> runs over all positions
  from 0.
\<close>

definition filter_not_index :: "int \<Rightarrow> 'a list \<Rightarrow> 'a list" where
  "filter_not_index index xs =
     map snd (filter (\<lambda>(i, _). int i \<noteq> index) (enumerate 0 xs))"

text \<open>
  The test of \<open>previewIndex\<close> reads \<open>images\<close> of the render the handler belongs to: the
  sequence before the removal.
\<close>

definition handleRemoveImage :: "int \<Rightarrow> editor \<Rightarrow> editor" where
  "handleRemoveImage index s =
     s\<lparr>images := filter_not_index index (images s),
       imageLinks := filter_links_not_index index (imageLinks s),
       previewIndex :=
         (if previewIndex s \<ge> int (length (images s)) - 1
          then max 0 (int (length (images s)) - 2)
          else previewIndex s)\<rparr>"

text \<open>The link field of the previewed image: \<open>handleUpdateLink(previewIndex, e.target.value)\<close>.\<close>

definition handleUpdateLink :: "int \<Rightarrow> string \<Rightarrow> editor \<Rightarrow> editor" where
  "handleUpdateLink index link s =
     s\<lparr>imageLinks := array_set index (Link link) (spread (imageLinks s))\<rparr>"

subsection \<open>Upload from the editor\<close>

definition validTypes :: "string list" where
  "validTypes = [''image/jpeg'', ''image/jpg'', ''image/png'', ''image/gif'', ''image/webp'']"

definition maxSize :: nat where
  "maxSize = 5 * 1024 * 1024"

text \<open>
  The first loop of \<open>handleFileUpload\<close>: the alert of the first file that fails, or
  \<open>None\<close> when the loop runs to its end.
\<close>

fun validate_files :: "File list \<Rightarrow> string option" where
  "validate_files [] = None"
| "validate_files (f # fs) =
     (if file_type f \<notin> set validTypes
      then Some (file_name f @ '': Invalid file type. Only JPEG, PNG, GIF, and WebP are allowed.'')
      else if file_size f > maxSize
      then Some (file_name f @ '': File too large. Maximum size is 5MB.'')
      else validate_files fs)"

text \<open>
  What the editor cannot decide itself is a parameter: the answer to the \<open>i\<close>-th request
  with its text (\<open>None\<close> when \<open>fetch\<close> or \<open>response.text()\<close> rejects), and the two uses
  of the library's \<open>JSON.parse\<close>, \<open>JSON.parse(text).error\<close> and
  \<open>JSON.parse(text).imageUrl\<close> (\<open>None\<close> when they throw). The request carries the file
  and the token.
\<close>

record response =
  ok :: bool
  resp_text :: string

record world =
  fetch :: "nat \<Rightarrow> string \<Rightarrow> File \<Rightarrow> response option"
  JSON_error :: "string \<Rightarrow> string option"
  JSON_imageUrl :: "string \<Rightarrow> string option"

text \<open>
  The second loop, from the \<open>i\<close>-th request on, with \<open>uploadedUrls\<close> so far. The result
  is \<open>None\<close> when an exception leaves the loop for the \<open>catch\<close> block.
\<close>

fun upload_files :: "world \<Rightarrow> string \<Rightarrow> nat \<Rightarrow> File list \<Rightarrow> string list
    \<Rightarrow> effect list \<times> string list option" where
  "upload_files w token i [] uploadedUrls = ([], Some uploadedUrls)"
| "upload_files w token i (f # fs) uploadedUrls =
     (case fetch w i token f of
        None \<Rightarrow> ([Fetch f token], None)
      | Some r \<Rightarrow>
          if \<not> ok r then
            (case (if CHR ''{'' \<in> set (resp_text r) then JSON_error w (resp_text r) else Some (resp_text r)) of
               None \<Rightarrow> ([Fetch f token], None)
             | Some error \<Rightarrow>
                 (Fetch f token # Alert (''Failed to upload '' @ file_name f @ '': '' @ error)
                    # fst (upload_files w token (Suc i) fs uploadedUrls),
                  snd (upload_files w token (Suc i) fs uploadedUrls)))
          else
            (case JSON_imageUrl w (resp_text r) of
               None \<Rightarrow> ([Fetch f token], None)
             | Some imageUrl \<Rightarrow>
                 (Fetch f token # fst (upload_files w token (Suc i) fs (uploadedUrls @ [imageUrl])),
                  snd (upload_files w token (Suc i) fs (uploadedUrls @ [imageUrl])))))"

text \<open>
  \<open>token\<close> is \<open>Cookies.get('auth_token')\<close>: \<open>None\<close> for \<open>undefined\<close>; the empty string is
  falsy as well. \<open>files\<close> is the selection (\<open>null\<close> counts as empty).
\<close>

definition handleFileUpload :: "world \<Rightarrow> string option \<Rightarrow> File list \<Rightarrow> editor
    \<Rightarrow> effect list \<times> editor" where
  "handleFileUpload w token files s =
     (if length files = 0 then ([], s)
      else
        (case validate_files files of
           Some msg \<Rightarrow> ([Alert msg], s)
         | None \<Rightarrow>
             (case token of
                None \<Rightarrow> ([Alert ''Please log in again''], s\<lparr>isUploading := False\<rparr>)
              | Some t \<Rightarrow>
                  if t = [] then ([Alert ''Please log in again''], s\<lparr>isUploading := False\<rparr>)
                  else
                    (case upload_files w t 0 files [] of
                       (fx, Some uploadedUrls) \<Rightarrow>
                         (fx,
                          s\<lparr>images := images s @ uploadedUrls,
                            imageLinks :=
                              spread (imageLinks s) @ replicate (length uploadedUrls) (Link []),
                            isUploading := False\<rparr>)
                     | (fx, None) \<Rightarrow>
                         (fx @ [Alert ''Failed to upload. Check console.''],
                          s\<lparr>isUploading := False\<rparr>)))))"

section \<open>Upload endpoint (app/api/upload/route.ts)\<close>

text \<open>A reply is \<open>NextResponse.json(body, {status})\<close>: the status and the JSON body.\<close>

datatype upload_body =
    UploadError string
  | UploadOk string string nat

definition POST_validTypes :: "string list" where
  "POST_validTypes = [''image/jpeg'', ''image/jpg'', ''image/png'', ''image/gif'', ''image/webp'']"

definition POST_maxSize :: nat where
  "POST_maxSize = 5 * 1024 * 1024"

text \<open>
  \<open>user\<close> says whether \<open>verifyToken\<close> returned a payload. \<open>form\<close> is the outcome of
  \<open>request.formData()\<close> and \<open>formData.get('image')\<close>: \<open>None\<close> when reading the form
  throws, \<open>Some None\<close> when the field is missing. \<open>base64\<close> stands for reading the bytes
  and encoding them (\<open>None\<close> when that throws). Every exception inside \<open>try\<close> ends in the
  reply of the \<open>catch\<close> block.
\<close>

definition POST_upload :: "(File \<Rightarrow> string option) \<Rightarrow> bool \<Rightarrow> File option option
    \<Rightarrow> nat \<times> upload_body" where
  "POST_upload base64 user form =
     (if \<not> user then (401, UploadError ''Unauthorized'')
      else
        (case form of
           None \<Rightarrow> (500, UploadError ''Failed to upload image'')
         | Some None \<Rightarrow> (400, UploadError ''No image file provided'')
         | Some (Some f) \<Rightarrow>
             if file_type f \<notin> set POST_validTypes
             then (400, UploadError ''Invalid file type. Only JPEG, PNG, GIF, and WebP are allowed.'')
             else if file_size f > POST_maxSize
             then (400, UploadError ''File too large. Maximum size is 5MB.'')
             else
               (case base64 f of
                  None \<Rightarrow> (500, UploadError ''Failed to upload image'')
                | Some b \<Rightarrow>
                    (200, UploadOk (''data:'' @ file_type f @ '';base64,'' @ b)
                            (file_name f) (file_size f)))))"

section \<open>Profile endpoint (app/api/profile/route.ts)\<close>

text \<open>
  The table \<open>portfolio\<close>: the last value of the sequence behind \<open>id SERIAL\<close>, and the
  rows of an id and a document; \<open>None\<close> while the table does not exist. The documents are of any type \<open>'d\<close>; \<open>defaultProfile\<close> (imported from a module
  outside these sources) is a parameter.
\<close>

type_synonym 'd table = "nat \<times> (nat \<times> 'd) list"

definition create_table :: "'d table option \<Rightarrow> 'd table" where
  "create_table db = (case db of None \<Rightarrow> (0, []) | Some t \<Rightarrow> t)"

text \<open>\<open>ORDER BY id DESC LIMIT 1\<close>: the row of the largest id, if there is a row.\<close>

definition select_latest :: "'d table \<Rightarrow> (nat \<times> 'd) list" where
  "select_latest t =
     (case snd t of
        [] \<Rightarrow> []
      | r # rs \<Rightarrow> [fold (\<lambda>x best. if fst x > fst best then x else best) rs r])"

text \<open>
  \<open>id SERIAL\<close>: the new row takes the next value of the sequence, which deleting rows does
  not set back.
\<close>

definition insert_row :: "'d \<Rightarrow> 'd table \<Rightarrow> 'd table" where
  "insert_row d t = (Suc (fst t), snd t @ [(Suc (fst t), d)])"

text \<open>
  Which of the four calls to the backend throws, should it be reached: opening the
  connection and the three statements. A statement that throws leaves the table as it is.
\<close>

record faults =
  neon_fails :: bool
  create_fails :: bool
  select_fails :: bool
  insert_fails :: bool

datatype exn = Exn

text \<open>The body of \<open>try\<close>: the table it leaves, and the reply or the exception.\<close>

definition GET_try :: "'d \<Rightarrow> faults \<Rightarrow> 'd table option
    \<Rightarrow> 'd table option \<times> (exn + nat \<times> 'd)" where
  "GET_try defaultProfile fl db =
     (if neon_fails fl then (db, Inl Exn)
      else if create_fails fl then (db, Inl Exn)
      else
        (let t = create_table db in
         if select_fails fl then (Some t, Inl Exn)
         else
           (case select_latest t of
              [] \<Rightarrow>
                if insert_fails fl then (Some t, Inl Exn)
                else (Some (insert_row defaultProfile t), Inr (200, defaultProfile))
            | row # _ \<Rightarrow> (Some t, Inr (200, snd row)))))"

definition GET :: "'d \<Rightarrow> faults \<Rightarrow> 'd table option \<Rightarrow> 'd table option \<times> (nat \<times> 'd)" where
  "GET defaultProfile fl db =
     (case GET_try defaultProfile fl db of
        (db', Inr reply) \<Rightarrow> (db', reply)
      | (db', Inl _) \<Rightarrow> (db', (200, defaultProfile)))"

section \<open>Observations and sample data\<close>

text \<open>The requests a handler has sent, and the messages it has shown, in order.\<close>

fun fetched :: "effect list \<Rightarrow> File list" where
  "fetched [] = []"
| "fetched (Fetch f t # fx) = f # fetched fx"
| "fetched (_ # fx) = fetched fx"

fun alerts :: "effect list \<Rightarrow> string list" where
  "alerts [] = []"
| "alerts (Alert msg # fx) = msg # alerts fx"
| "alerts (_ # fx) = alerts fx"

text \<open>
  The \<open>i\<close>-th request completes: \<open>fetch\<close> resolves, and the body is read without an
  exception (an answer that is not ok and has no brace in its text is not parsed at all).
\<close>

definition completes :: "world \<Rightarrow> string \<Rightarrow> nat \<Rightarrow> File \<Rightarrow> bool" where
  "completes w token i f =
     (case fetch w i token f of
        None \<Rightarrow> False
      | Some r \<Rightarrow>
          if ok r then JSON_imageUrl w (resp_text r) \<noteq> None
          else CHR ''{'' \<in> set (resp_text r) \<longrightarrow> JSON_error w (resp_text r) \<noteq> None)"

text \<open>
  The references of the successful uploads of a batch whose first request is the \<open>i\<close>-th,
  and the reports of the failed ones, each in the order of the files.
\<close>

fun successful_refs :: "world \<Rightarrow> string \<Rightarrow> nat \<Rightarrow> File list \<Rightarrow> string list" where
  "successful_refs w token i [] = []"
| "successful_refs w token i (f # fs) =
     (case fetch w i token f of
        Some r \<Rightarrow>
          (if ok r then (case JSON_imageUrl w (resp_text r) of Some u \<Rightarrow> [u] | None \<Rightarrow> [])
           else [])
      | None \<Rightarrow> [])
     @ successful_refs w token (Suc i) fs"

fun failure_reports :: "world \<Rightarrow> string \<Rightarrow> nat \<Rightarrow> File list \<Rightarrow> string list" where
  "failure_reports w token i [] = []"
| "failure_reports w token i (f # fs) =
     (case fetch w i token f of
        Some r \<Rightarrow>
          (if ok r then []
           else
             (case (if CHR ''{'' \<in> set (resp_text r) then JSON_error w (resp_text r)
                    else Some (resp_text r)) of
                Some error \<Rightarrow> [''Failed to upload '' @ file_name f @ '': '' @ error]
              | None \<Rightarrow> []))
      | None \<Rightarrow> [])
     @ failure_reports w token (Suc i) fs"

text \<open>The editor as its \<open>useState\<close> calls create it.\<close>

definition editor_init :: editor where
  "editor_init = \<lparr>type = Title, content = [], hasDuration = False, duration = [],
     hasImages = False, images = [], imageLinks = [], isUploading = False, previewIndex = 0\<rparr>"

definition png :: "string \<Rightarrow> nat \<Rightarrow> File" where
  "png n sz = \<lparr>file_name = n, file_type = ''image/png'', file_size = sz\<rparr>"

text \<open>
  Two networks. In the first the second request of a batch is rejected (the promise of
  \<open>fetch\<close> rejects); in the second it is answered with a status that is not ok and a JSON
  error body. Every other request succeeds.
\<close>

definition world_second_rejects :: world where
  "world_second_rejects =
     \<lparr>fetch = (\<lambda>i token f. if i = 1 then None else Some \<lparr>ok = True, resp_text = file_name f\<rparr>),
      JSON_error = Some,
      JSON_imageUrl = (\<lambda>txt. Some (''data:'' @ txt))\<rparr>"

definition world_second_unauthorized :: world where
  "world_second_unauthorized =
     \<lparr>fetch = (\<lambda>i token f.
                if i = 1 then Some \<lparr>ok = False, resp_text = ''{error:Unauthorized}''\<rparr>
                else Some \<lparr>ok = True, resp_text = file_name f\<rparr>),
      JSON_error = (\<lambda>txt. Some ''Unauthorized''),
      JSON_imageUrl = (\<lambda>txt. Some (''data:'' @ txt))\<rparr>"

section \<open>Properties of the carousel\<close>

lemma activeIndex_render [simp]: "activeIndex (render p s) = activeIndex s"
  by (simp add: render_def split: option.splits)

lemma activeIndex_handleNext:
  "activeIndex (handleNext imgs s) =
     (if activeIndex s < int (length imgs) - 1 then activeIndex s + 1 else 0)"
  by (simp add: handleNext_def)

lemma handleNext_mod:
  assumes "0 \<le> activeIndex s" and "activeIndex s < int (length imgs)"
  shows "activeIndex (handleNext imgs s) = (activeIndex s + 1) mod int (length imgs)"
proof (cases "activeIndex s < int (length imgs) - 1")
  case True
  with assms show ?thesis by (simp add: activeIndex_handleNext)
next
  case False
  with assms have "activeIndex s + 1 = int (length imgs)" by simp
  with False show ?thesis by (simp add: activeIndex_handleNext)
qed

lemma handleNext_funpow:
  assumes "0 \<le> activeIndex s" and "activeIndex s < int (length imgs)"
  shows "activeIndex ((handleNext imgs ^^ k) s) = (activeIndex s + int k) mod int (length imgs)"
proof (induction k)
  case 0
  from assms show ?case by simp
next
  case (Suc k)
  let ?t = "(handleNext imgs ^^ k) s"
  from assms have pos: "0 < int (length imgs)" by linarith
  have "0 \<le> activeIndex ?t" and "activeIndex ?t < int (length imgs)"
    using Suc pos by simp_all
  then have "activeIndex (handleNext imgs ?t) = (activeIndex ?t + 1) mod int (length imgs)"
    by (rule handleNext_mod)
  also have "\<dots> = ((activeIndex s + int k) mod int (length imgs) + 1) mod int (length imgs)"
    by (simp only: Suc)
  also have "\<dots> = (activeIndex s + int k + 1) mod int (length imgs)"
    by (rule mod_add_left_eq)
  also have "activeIndex s + int k + 1 = activeIndex s + int (Suc k)"
    by simp
  finally show ?case by simp
qed

text \<open>
  C3, as stated: \<open>next()\<close> followed by \<open>total\<close> repeated \<open>next()\<close> calls returns
  \<open>activeIndex\<close> to its original value. That is \<open>total + 1\<close> calls, one more than a full
  cycle. On two images, from index 0: the first \<open>next()\<close> leads to 1, the two calls that
  follow lead to 0 and then to 1, which is not the original 0.
\<close>

theorem carousel_next_then_total_overshoots:
  "activeIndex ContentBlock_init = 0
   \<and> activeIndex (handleNext [''a'', ''b''] ContentBlock_init) = 1
   \<and> activeIndex ((handleNext [''a'', ''b''] ^^ 2) (handleNext [''a'', ''b''] ContentBlock_init)) = 1"
  by (simp add: ContentBlock_init_def handleNext_def render_def numeral_2_eq_2)

text \<open>
  C3, amended. On a non-empty image sequence with \<open>activeIndex\<close> in range, \<open>next()\<close>
  moves \<open>activeIndex\<close> to \<open>(activeIndex + 1) mod total\<close>, and \<open>total\<close> repeated \<open>next()\<close>
  calls are one full cycle: they return \<open>activeIndex\<close> to its original value. A \<open>next()\<close>
  followed by \<open>total\<close> further calls therefore ends at \<open>(activeIndex + 1) mod total\<close>.
\<close>

theorem carousel_next_circular:
  assumes "imgs \<noteq> []" and "0 \<le> activeIndex s" and "activeIndex s < int (length imgs)"
  shows "activeIndex (handleNext imgs s) = (activeIndex s + 1) mod int (length imgs)
       \<and> activeIndex ((handleNext imgs ^^ length imgs) s) = activeIndex s
       \<and> activeIndex ((handleNext imgs ^^ length imgs) (handleNext imgs s))
           = (activeIndex s + 1) mod int (length imgs)"
proof -
  let ?n = "int (length imgs)"
  have step: "activeIndex (handleNext imgs s) = (activeIndex s + 1) mod ?n"
    using assms(2,3) by (rule handleNext_mod)
  have cyc: "activeIndex ((handleNext imgs ^^ length imgs) t) = activeIndex t"
    if "0 \<le> activeIndex t" and "activeIndex t < ?n" for t
    using that by (simp add: handleNext_funpow)
  from assms(3) assms(2) have pos: "0 < ?n" by linarith
  have "0 \<le> activeIndex (handleNext imgs s)" and "activeIndex (handleNext imgs s) < ?n"
    using pos by (simp_all add: step)
  then have "activeIndex ((handleNext imgs ^^ length imgs) (handleNext imgs s))
               = activeIndex (handleNext imgs s)"
    by (rule cyc)
  with step cyc [OF assms(2,3)] show ?thesis by simp
qed

theorem carousel_next_circular_witness:
  "activeIndex (handleNext [''a'', ''b'', ''c''] (ContentBlock_init\<lparr>activeIndex := 2\<rparr>)) = 0
   \<and> activeIndex ((handleNext [''a'', ''b'', ''c''] ^^ 3) (ContentBlock_init\<lparr>activeIndex := 2\<rparr>)) = 2"
  using carousel_next_circular [of "[''a'', ''b'', ''c'']" "ContentBlock_init\<lparr>activeIndex := 2\<rparr>"]
  by (simp add: ContentBlock_init_def numeral_3_eq_3)

section \<open>Properties of the lightbox\<close>

lemma lb_update_activeIndex [simp]: "activeIndex (lb_update f s) = activeIndex s"
  by (simp add: lb_update_def split: option.splits)

lemma lb_update_lightbox:
  "map_option currentIndex (lightbox (lb_update f s))
     = map_option (\<lambda>l. f (currentIndex l)) (lightbox s)"
  by (simp add: lb_update_def split: option.splits)

lemma open_seeds:
  "lightbox s = None \<Longrightarrow>
     lightbox (handleImageClick s) = Some \<lparr>currentIndex = activeIndex s, mounted = True\<rparr>"
  by (simp add: handleImageClick_def render_def)

lemma render_reseeds:
  "lightbox s = Some l \<Longrightarrow> lightboxOpen s \<Longrightarrow>
     map_option currentIndex (lightbox (render (activeIndex s) (s\<lparr>activeIndex := a\<rparr>)))
       = Some (if a \<noteq> activeIndex s then a else currentIndex l)"
  by (simp add: render_def)

text \<open>
  C7, as stated: after the lightbox is opened its index and the carousel's are independent.
  They are not. Open the lightbox on three images at carousel index 0 and move the lightbox
  twice to the right: its \<open>currentIndex\<close> is 2, the carousel's \<open>activeIndex\<close> still 0. One
  \<open>next()\<close> of the carousel then sets \<open>activeIndex\<close> to 1, the \<open>initialIndex\<close> prop of the
  lightbox changes with it, and the effect on \<open>[initialIndex]\<close> sets \<open>currentIndex\<close> to 1.
\<close>

theorem lightbox_follows_carousel:
  "activeIndex (lb_handleNext [''a'', ''b'', ''c'']
      (lb_handleNext [''a'', ''b'', ''c''] (handleImageClick ContentBlock_init))) = 0
   \<and> map_option currentIndex (lightbox (lb_handleNext [''a'', ''b'', ''c'']
      (lb_handleNext [''a'', ''b'', ''c''] (handleImageClick ContentBlock_init)))) = Some 2
   \<and> map_option currentIndex (lightbox (handleNext [''a'', ''b'', ''c'']
      (lb_handleNext [''a'', ''b'', ''c'']
        (lb_handleNext [''a'', ''b'', ''c''] (handleImageClick ContentBlock_init))))) = Some 1"
  by (simp add: handleImageClick_def ContentBlock_init_def render_def lb_handleNext_def
        lb_update_def handleNext_def)

text \<open>
  C7, amended. Opening the lightbox from a block that shows none sets \<open>currentIndex\<close> to
  the carousel's \<open>activeIndex\<close> of that moment. Navigation in the lightbox (next, previous,
  thumbnail) moves \<open>currentIndex\<close> by its own rule and never changes \<open>activeIndex\<close>, so
  the two need not agree afterwards. The other direction is not independent: when the
  carousel's \<open>activeIndex\<close> changes while the lightbox is open (next, previous, dot),
  \<open>currentIndex\<close> is set to the new \<open>activeIndex\<close>; when it does not change,
  \<open>currentIndex\<close> stays.
\<close>

theorem lightbox_seeded_and_reseeded:
  "(lightbox s = None \<longrightarrow>
      map_option currentIndex (lightbox (handleImageClick s)) = Some (activeIndex s))
   \<and> activeIndex (lb_handleNext imgs s) = activeIndex s
   \<and> activeIndex (lb_handlePrevious imgs s) = activeIndex s
   \<and> activeIndex (setCurrentIndex idx s) = activeIndex s
   \<and> (lightbox s = Some l \<longrightarrow>
        map_option currentIndex (lightbox (lb_handleNext imgs s))
          = Some (if currentIndex l < int (length imgs) - 1 then currentIndex l + 1 else 0)
        \<and> map_option currentIndex (lightbox (lb_handlePrevious imgs s))
          = Some (if currentIndex l > 0 then currentIndex l - 1 else int (length imgs) - 1)
        \<and> map_option currentIndex (lightbox (setCurrentIndex idx s)) = Some idx)
   \<and> (lightbox s = Some l \<and> lightboxOpen s \<longrightarrow>
        map_option currentIndex (lightbox (handleNext imgs s))
          = Some (if activeIndex (handleNext imgs s) \<noteq> activeIndex s
                  then activeIndex (handleNext imgs s) else currentIndex l)
        \<and> map_option currentIndex (lightbox (handlePrevious imgs s))
          = Some (if activeIndex (handlePrevious imgs s) \<noteq> activeIndex s
                  then activeIndex (handlePrevious imgs s) else currentIndex l)
        \<and> map_option currentIndex (lightbox (setActiveIndex idx s))
          = Some (if idx \<noteq> activeIndex s then idx else currentIndex l))"
proof (intro conjI impI)
  assume "lightbox s = None"
  then show "map_option currentIndex (lightbox (handleImageClick s)) = Some (activeIndex s)"
    by (simp add: open_seeds)
next
  show "activeIndex (lb_handleNext imgs s) = activeIndex s"
    by (simp add: lb_handleNext_def)
  show "activeIndex (lb_handlePrevious imgs s) = activeIndex s"
    by (simp add: lb_handlePrevious_def)
  show "activeIndex (setCurrentIndex idx s) = activeIndex s"
    by (simp add: setCurrentIndex_def)
next
  assume l: "lightbox s = Some l"
  show "map_option currentIndex (lightbox (lb_handleNext imgs s))
          = Some (if currentIndex l < int (length imgs) - 1 then currentIndex l + 1 else 0)"
    using l by (simp add: lb_handleNext_def lb_update_lightbox)
  show "map_option currentIndex (lightbox (lb_handlePrevious imgs s))
          = Some (if currentIndex l > 0 then currentIndex l - 1 else int (length imgs) - 1)"
    using l by (simp add: lb_handlePrevious_def lb_update_lightbox)
  show "map_option currentIndex (lightbox (setCurrentIndex idx s)) = Some idx"
    using l by (simp add: setCurrentIndex_def lb_update_lightbox)
next
  assume a: "lightbox s = Some l \<and> lightboxOpen s"
  show "map_option currentIndex (lightbox (handleNext imgs s))
          = Some (if activeIndex (handleNext imgs s) \<noteq> activeIndex s
                  then activeIndex (handleNext imgs s) else currentIndex l)"
    using a by (simp add: handleNext_def render_reseeds)
  show "map_option currentIndex (lightbox (handlePrevious imgs s))
          = Some (if activeIndex (handlePrevious imgs s) \<noteq> activeIndex s
                  then activeIndex (handlePrevious imgs s) else currentIndex l)"
    using a by (simp add: handlePrevious_def render_reseeds)
  show "map_option currentIndex (lightbox (setActiveIndex idx s))
          = Some (if idx \<noteq> activeIndex s then idx else currentIndex l)"
    using a by (simp add: setActiveIndex_def render_reseeds)
qed

theorem lightbox_seeded_and_reseeded_witness:
  "lightbox (ContentBlock_init\<lparr>activeIndex := 2\<rparr>) = None
   \<and> map_option currentIndex (lightbox (handleImageClick (ContentBlock_init\<lparr>activeIndex := 2\<rparr>)))
       = Some 2
   \<and> lightbox (handleImageClick ContentBlock_init)
       = Some \<lparr>currentIndex = 0, mounted = True\<rparr>
   \<and> lightboxOpen (handleImageClick ContentBlock_init)
   \<and> map_option currentIndex
        (lightbox (lb_handleNext [''a'', ''b'', ''c''] (handleImageClick ContentBlock_init)))
       = Some 1
   \<and> activeIndex (lb_handleNext [''a'', ''b'', ''c''] (handleImageClick ContentBlock_init)) = 0
   \<and> map_option currentIndex
        (lightbox (setActiveIndex 2 (handleImageClick ContentBlock_init)))
       = Some 2"
  using lightbox_seeded_and_reseeded
          [of "ContentBlock_init\<lparr>activeIndex := 2\<rparr>" "[''a'', ''b'', ''c'']" 2
              "\<lparr>currentIndex = 0, mounted = True\<rparr>"]
        lightbox_seeded_and_reseeded
          [of "handleImageClick ContentBlock_init" "[''a'', ''b'', ''c'']" 2
              "\<lparr>currentIndex = 0, mounted = True\<rparr>"]
  by (simp add: ContentBlock_init_def handleImageClick_def render_def lb_handleNext_def
        lb_handlePrevious_def setCurrentIndex_def lb_update_def handleNext_def
        handlePrevious_def setActiveIndex_def)

text \<open>
  C8. While the lightbox is open, \<open>Escape\<close> closes it (and leaves the carousel's index
  alone). With more than one image \<open>ArrowRight\<close> and \<open>ArrowLeft\<close> are the lightbox's
  next and previous: from an index in range they lead to \<open>(currentIndex + 1) mod total\<close>
  and \<open>(currentIndex - 1 + total) mod total\<close>. With at most one image the two keys change
  nothing. Opened at index 2 over five images, three presses of \<open>ArrowRight\<close> lead to
  index 0.
\<close>

theorem lightbox_keyboard:
  "(lightbox s \<noteq> None \<longrightarrow>
      lightbox (keydown imgs ''Escape'' s) = None \<and> \<not> lightboxOpen (keydown imgs ''Escape'' s)
      \<and> activeIndex (keydown imgs ''Escape'' s) = activeIndex s)
   \<and> (lightbox s = Some l \<and> length imgs > 1 \<longrightarrow>
        keydown imgs ''ArrowRight'' s = lb_handleNext imgs s
        \<and> keydown imgs ''ArrowLeft'' s = lb_handlePrevious imgs s
        \<and> map_option currentIndex (lightbox (keydown imgs ''ArrowRight'' s))
            = Some (if currentIndex l < int (length imgs) - 1 then currentIndex l + 1 else 0)
        \<and> map_option currentIndex (lightbox (keydown imgs ''ArrowLeft'' s))
            = Some (if currentIndex l > 0 then currentIndex l - 1 else int (length imgs) - 1))
   \<and> (lightbox s = Some l \<and> length imgs > 1
        \<and> 0 \<le> currentIndex l \<and> currentIndex l < int (length imgs) \<longrightarrow>
        map_option currentIndex (lightbox (keydown imgs ''ArrowRight'' s))
            = Some ((currentIndex l + 1) mod int (length imgs))
        \<and> map_option currentIndex (lightbox (keydown imgs ''ArrowLeft'' s))
            = Some ((currentIndex l - 1 + int (length imgs)) mod int (length imgs)))
   \<and> (length imgs \<le> 1 \<longrightarrow>
        keydown imgs ''ArrowRight'' s = s \<and> keydown imgs ''ArrowLeft'' s = s)
   \<and> (length imgs = 5 \<longrightarrow>
        map_option currentIndex
          (lightbox ((keydown imgs ''ArrowRight'' ^^ 3)
             (handleImageClick (ContentBlock_init\<lparr>activeIndex := 2\<rparr>)))) = Some 0)"
proof (intro conjI impI)
  assume "lightbox s \<noteq> None"
  then show "lightbox (keydown imgs ''Escape'' s) = None"
    and "\<not> lightboxOpen (keydown imgs ''Escape'' s)"
    and "activeIndex (keydown imgs ''Escape'' s) = activeIndex s"
    by (auto simp add: keydown_def handleEscape_def handleKeyNav_def onClose_def render_def
          Let_def split: option.splits)
next
  assume a: "lightbox s = Some l \<and> length imgs > 1"
  show r: "keydown imgs ''ArrowRight'' s = lb_handleNext imgs s"
    using a by (simp add: keydown_def handleEscape_def handleKeyNav_def)
  show p: "keydown imgs ''ArrowLeft'' s = lb_handlePrevious imgs s"
    using a by (simp add: keydown_def handleEscape_def handleKeyNav_def)
  show "map_option currentIndex (lightbox (keydown imgs ''ArrowRight'' s))
            = Some (if currentIndex l < int (length imgs) - 1 then currentIndex l + 1 else 0)"
    using a by (simp add: r lb_handleNext_def lb_update_lightbox)
  show "map_option currentIndex (lightbox (keydown imgs ''ArrowLeft'' s))
            = Some (if currentIndex l > 0 then currentIndex l - 1 else int (length imgs) - 1)"
    using a by (simp add: p lb_handlePrevious_def lb_update_lightbox)
next
  assume a: "lightbox s = Some l \<and> length imgs > 1
        \<and> 0 \<le> currentIndex l \<and> currentIndex l < int (length imgs)"
  then have r: "keydown imgs ''ArrowRight'' s = lb_handleNext imgs s"
    and p: "keydown imgs ''ArrowLeft'' s = lb_handlePrevious imgs s"
    by (simp_all add: keydown_def handleEscape_def handleKeyNav_def)
  show "map_option currentIndex (lightbox (keydown imgs ''ArrowRight'' s))
            = Some ((currentIndex l + 1) mod int (length imgs))"
  proof (cases "currentIndex l < int (length imgs) - 1")
    case True
    with a show ?thesis by (simp add: r lb_handleNext_def lb_update_lightbox)
  next
    case False
    with a have "currentIndex l + 1 = int (length imgs)" by simp
    with a False show ?thesis by (simp add: r lb_handleNext_def lb_update_lightbox)
  qed
  show "map_option currentIndex (lightbox (keydown imgs ''ArrowLeft'' s))
            = Some ((currentIndex l - 1 + int (length imgs)) mod int (length imgs))"
  proof (cases "currentIndex l > 0")
    case True
    with a have "(currentIndex l - 1 + int (length imgs)) mod int (length imgs)
        = currentIndex l - 1"
      by simp
    with a True show ?thesis by (simp add: p lb_handlePrevious_def lb_update_lightbox)
  next
    case False
    with a have z: "currentIndex l = 0" by simp
    have "(int (length imgs) - 1) mod int (length imgs) = int (length imgs) - 1"
      using a by (intro mod_pos_pos_trivial) auto
    then have "(currentIndex l - 1 + int (length imgs)) mod int (length imgs)
        = int (length imgs) - 1"
      by (simp add: z)
    with a z show ?thesis by (simp only: p lb_handlePrevious_def lb_update_lightbox) simp
  qed
next
  assume "length imgs \<le> 1"
  then show "keydown imgs ''ArrowRight'' s = s" and "keydown imgs ''ArrowLeft'' s = s"
    by (simp_all add: keydown_def handleEscape_def split: option.splits)
next
  assume "length imgs = 5"
  then show "map_option currentIndex
          (lightbox ((keydown imgs ''ArrowRight'' ^^ 3)
             (handleImageClick (ContentBlock_init\<lparr>activeIndex := 2\<rparr>)))) = Some 0"
    by (simp add: keydown_def handleEscape_def handleKeyNav_def lb_handleNext_def lb_update_def
          numeral_3_eq_3 handleImageClick_def ContentBlock_init_def render_def)
qed

theorem lightbox_keyboard_witness:
  "lightbox (handleImageClick (ContentBlock_init\<lparr>activeIndex := 2\<rparr>))
     = Some \<lparr>currentIndex = 2, mounted = True\<rparr>
   \<and> lightbox (keydown [''a'', ''b'', ''c'', ''d'', ''e''] ''Escape''
        (handleImageClick (ContentBlock_init\<lparr>activeIndex := 2\<rparr>))) = None
   \<and> map_option currentIndex (lightbox (keydown [''a'', ''b'', ''c'', ''d'', ''e''] ''ArrowRight''
        (handleImageClick (ContentBlock_init\<lparr>activeIndex := 2\<rparr>)))) = Some 3
   \<and> map_option currentIndex (lightbox (keydown [''a'', ''b'', ''c'', ''d'', ''e''] ''ArrowLeft''
        (handleImageClick (ContentBlock_init\<lparr>activeIndex := 2\<rparr>)))) = Some 1
   \<and> keydown [''a''] ''ArrowRight'' (handleImageClick ContentBlock_init)
       = handleImageClick ContentBlock_init
   \<and> map_option currentIndex
        (lightbox ((keydown [''a'', ''b'', ''c'', ''d'', ''e''] ''ArrowRight'' ^^ 3)
           (handleImageClick (ContentBlock_init\<lparr>activeIndex := 2\<rparr>)))) = Some 0"
  using lightbox_keyboard
          [of "handleImageClick (ContentBlock_init\<lparr>activeIndex := 2\<rparr>)"
              "[''a'', ''b'', ''c'', ''d'', ''e'']" "\<lparr>currentIndex = 2, mounted = True\<rparr>"]
        lightbox_keyboard
          [of "handleImageClick ContentBlock_init" "[''a'']" "\<lparr>currentIndex = 0, mounted = True\<rparr>"]
  by (simp add: ContentBlock_init_def handleImageClick_def render_def keydown_def
        handleEscape_def handleKeyNav_def onClose_def lb_handleNext_def lb_handlePrevious_def
        lb_update_def numeral_3_eq_3)

section \<open>Properties of the editor\<close>

lemma trim_Nil [simp]: "trim [] = []"
  by (simp add: trim_def)

lemma handleSave_rejects:
  "trim (content s) = [] \<Longrightarrow> images s = [] \<Longrightarrow>
     handleSave e s = ([Alert ''Please add either text or at least one image''], s)"
  by (simp add: handleSave_def)

lemma handleSave_accepts:
  "trim (content s) \<noteq> [] \<or> images s \<noteq> [] \<Longrightarrow>
     fst (handleSave e s) =
       [OnSave (type s) (content s)
          (if hasDuration s \<and> trim (duration s) \<noteq> [] then Some (duration s) else None)
          (if hasImages s \<and> images s \<noteq> [] then Some (images s) else None)
          (if hasImages s \<and> imageLinks s \<noteq> [] then Some (imageLinks s) else None),
        OnClose]"
  by (auto simp add: handleSave_def handleClose_def)

text \<open>
  What does hold of save: without text (nothing but white space) and without stored
  images it is rejected and changes nothing; with text or with a stored image it goes
  through; and while the toggle is on, or no image is stored, the block it emits has text
  or a non-empty \<open>images\<close> argument.
\<close>

lemma handleSave_block_not_empty:
  assumes "fst (handleSave e s) = OnSave t c d im l # fx"
    and "hasImages s \<or> images s = []"
  shows "trim c \<noteq> [] \<or> (\<exists>xs. im = Some xs \<and> xs \<noteq> [])"
proof (cases "trim (content s) = [] \<and> images s = []")
  case True
  with assms(1) show ?thesis by (simp add: handleSave_rejects)
next
  case False
  then have "trim (content s) \<noteq> [] \<or> images s \<noteq> []" by blast
  from handleSave_accepts [OF this, of e] assms False show ?thesis by auto
qed

text \<open>
  C1. Every block that save emits has non-empty content or at least one image. The code
  misses a case: the guard of \<open>handleSave\<close> counts the stored images, but the \<open>images\<close>
  argument of \<open>onSave\<close> is present only while the toggle \<open>hasImages\<close> is on. With the
  toggle off, no text and one stored image, save is not rejected, and \<open>onSave\<close> receives
  an empty content and no images.
\<close>

theorem handleSave_toggle_off_emits_empty_block:
  "handleSave True
     \<lparr>type = Title, content = [], hasDuration = False, duration = [], hasImages = False,
      images = [''A''], imageLinks = [Link []], isUploading = False, previewIndex = 0\<rparr>
   = ([OnSave Title [] None None None, OnClose],
      \<lparr>type = Title, content = [], hasDuration = False, duration = [], hasImages = False,
       images = [''A''], imageLinks = [Link []], isUploading = False, previewIndex = 0\<rparr>)"
  by (simp add: handleSave_def handleClose_def)

lemma filter_not_index_enumerate:
  "map snd (filter (\<lambda>(i, _). int i \<noteq> int (k + n)) (enumerate n xs))
     = take k xs @ drop (Suc k) xs"
proof (induction xs arbitrary: n k)
  case Nil
  then show ?case by simp
next
  case (Cons x xs)
  show ?case
  proof (cases k)
    case 0
    have "filter (\<lambda>(i, _). int i \<noteq> int n) (enumerate (Suc n) xs) = enumerate (Suc n) xs"
      by (rule filter_True) (auto simp: in_set_enumerate_eq)
    with 0 show ?thesis by simp
  next
    case (Suc j)
    with Cons.IH [of j "Suc n"] show ?thesis by simp
  qed
qed

lemma filter_not_index_nat:
  "filter_not_index (int k) xs = take k xs @ drop (Suc k) xs"
  using filter_not_index_enumerate [of k 0 xs] by (simp add: filter_not_index_def)

lemma length_filter_not_index:
  "k < length xs \<Longrightarrow> length (filter_not_index (int k) xs) = length xs - 1"
  by (simp add: filter_not_index_nat)

lemma filter_links_without_holes:
  assumes "Hole \<notin> set xs"
  shows "filter_links_not_index index xs = filter_not_index index xs"
proof -
  have "filter (\<lambda>(i, x). x \<noteq> Hole \<and> int i \<noteq> index) (enumerate 0 xs)
      = filter (\<lambda>(i, _). int i \<noteq> index) (enumerate 0 xs)"
  proof (rule filter_cong [OF refl])
    fix p assume "p \<in> set (enumerate 0 xs)"
    then have "snd p \<in> snd ` set (enumerate 0 xs)"
      by (rule imageI)
    then have "snd p \<in> set xs"
      by (simp only: set_map [symmetric] map_snd_enumerate)
    with assms have "snd p \<noteq> Hole" by auto
    then show "(case p of (i, x) \<Rightarrow> x \<noteq> Hole \<and> int i \<noteq> index)
        = (case p of (i, _) \<Rightarrow> int i \<noteq> index)"
      by (cases p) simp
  qed
  then show ?thesis
    by (simp only: filter_links_not_index_def filter_not_index_def)
qed

lemma filter_links_not_index_dense:
  "Hole \<notin> set xs \<Longrightarrow> filter_links_not_index (int k) xs = take k xs @ drop (Suc k) xs"
  by (simp add: filter_links_without_holes filter_not_index_nat)

lemma zip_without_position:
  assumes "length xs = length ys"
  shows "zip (take k xs @ drop (Suc k) xs) (take k ys @ drop (Suc k) ys)
           = take k (zip xs ys) @ drop (Suc k) (zip xs ys)"
  using assms by (simp add: take_zip drop_zip)

text \<open>
  Where the alignment does hold: while \<open>imageLinks\<close> has no hole. A removal at a valid
  index then takes the same position out of both sequences, they stay equally long, and
  every image that remains keeps its own link. So it is on a block loaded for editing
  with images \<open>[A, B, C]\<close> and links \<open>["", "x", ""]\<close>: removing index 1 leaves \<open>[A, C]\<close>
  and \<open>["", ""]\<close>.
\<close>

lemma remove_image_dense_alignment:
  assumes "length (images s) = length (imageLinks s)" and "i < length (images s)"
    and "Hole \<notin> set (imageLinks s)"
  shows "images (handleRemoveImage (int i) s) = take i (images s) @ drop (Suc i) (images s)"
    and "imageLinks (handleRemoveImage (int i) s)
          = take i (imageLinks s) @ drop (Suc i) (imageLinks s)"
    and "length (images (handleRemoveImage (int i) s))
          = length (imageLinks (handleRemoveImage (int i) s))"
    and "zip (images (handleRemoveImage (int i) s)) (imageLinks (handleRemoveImage (int i) s))
          = take i (zip (images s) (imageLinks s)) @ drop (Suc i) (zip (images s) (imageLinks s))"
proof -
  show im: "images (handleRemoveImage (int i) s) = take i (images s) @ drop (Suc i) (images s)"
    by (simp add: handleRemoveImage_def filter_not_index_nat)
  show li: "imageLinks (handleRemoveImage (int i) s)
          = take i (imageLinks s) @ drop (Suc i) (imageLinks s)"
    using assms(3) by (simp add: handleRemoveImage_def filter_links_not_index_dense)
  show "length (images (handleRemoveImage (int i) s))
          = length (imageLinks (handleRemoveImage (int i) s))"
    using assms(1,2) by (simp add: im li)
  show "zip (images (handleRemoveImage (int i) s)) (imageLinks (handleRemoveImage (int i) s))
          = take i (zip (images s) (imageLinks s)) @ drop (Suc i) (zip (images s) (imageLinks s))"
    using assms(1) by (simp only: im li zip_without_position)
qed

lemma remove_image_example:
  assumes "init_images d = Some [A, B, C]" and "init_imageLinks d = Some [Link '''', Link ''x'', Link '''']"
  shows "images (handleRemoveImage 1 (loadInitial (Some d) s)) = [A, C]"
    and "imageLinks (handleRemoveImage 1 (loadInitial (Some d) s)) = [Link '''', Link '''']"
  using assms
  by (simp_all add: handleRemoveImage_def loadInitial_def filter_not_index_def
        filter_links_not_index_def enumerate_eq_zip upt_rec)

text \<open>
  C4. A removal at a valid index, from a state whose \<open>images\<close> and \<open>imageLinks\<close> have
  the same length, leaves the two sequences aligned and equally long. The code misses a
  case: an \<open>imageLinks\<close> array with holes. Open the editor on a block with the images
  \<open>[A, B, C]\<close> and no links, so that \<open>imageLinks\<close> starts empty, and enter the link \<open>x\<close>
  for the third image: \<open>handleUpdateLink(2, "x")\<close> writes position 2 of a copy of the
  empty array, which gives two holes and \<open>x\<close>, an array of length 3 like \<open>images\<close>. Now
  remove the first image. \<open>images\<close> becomes \<open>[B, C]\<close>, but the filter on \<open>imageLinks\<close>
  skips the holes and leaves \<open>[x]\<close>: the lengths are 2 and 1, and the link of \<open>C\<close> stands
  at the position of \<open>B\<close>.
\<close>

theorem remove_image_with_holes_misaligns:
  "imageLinks (handleUpdateLink 2 ''x''
      (loadInitial
         (Some \<lparr>init_type = Title, init_content = [], init_duration = None,
                 init_images = Some [''A'', ''B'', ''C''], init_imageLinks = None\<rparr>)
         editor_init))
     = [Hole, Hole, Link ''x'']
   \<and> images (handleUpdateLink 2 ''x''
      (loadInitial
         (Some \<lparr>init_type = Title, init_content = [], init_duration = None,
                 init_images = Some [''A'', ''B'', ''C''], init_imageLinks = None\<rparr>)
         editor_init))
     = [''A'', ''B'', ''C'']
   \<and> images (handleRemoveImage 0 (handleUpdateLink 2 ''x''
      (loadInitial
         (Some \<lparr>init_type = Title, init_content = [], init_duration = None,
                 init_images = Some [''A'', ''B'', ''C''], init_imageLinks = None\<rparr>)
         editor_init)))
     = [''B'', ''C'']
   \<and> imageLinks (handleRemoveImage 0 (handleUpdateLink 2 ''x''
      (loadInitial
         (Some \<lparr>init_type = Title, init_content = [], init_duration = None,
                 init_images = Some [''A'', ''B'', ''C''], init_imageLinks = None\<rparr>)
         editor_init)))
     = [Link ''x'']"
  by (simp add: handleRemoveImage_def handleUpdateLink_def loadInitial_def editor_init_def
        spread_def array_set_def filter_not_index_def filter_links_not_index_def
        enumerate_eq_zip upt_rec numeral_2_eq_2)

text \<open>
  C5. When the removed index is the current preview index and the last index of the
  sequence (\<open>i = p = n - 1\<close>), the preview index after the removal is
  \<open>max(0, newLength - 1)\<close>, where \<open>newLength = n - 1\<close> is the length after the removal.
\<close>

theorem remove_last_preview_clamps:
  assumes "images s \<noteq> []" and "index = int (length (images s)) - 1"
    and "previewIndex s = index"
  shows "previewIndex (handleRemoveImage index s)
           = max 0 (int (length (images (handleRemoveImage index s))) - 1)
       \<and> length (images (handleRemoveImage index s)) = length (images s) - 1"
proof -
  from assms(1) obtain k where k: "length (images s) = Suc k"
    by (cases "images s") auto
  then have idx: "index = int k" using assms(2) by simp
  have len: "length (images (handleRemoveImage index s)) = k"
    using k by (simp add: handleRemoveImage_def idx length_filter_not_index)
  have "previewIndex (handleRemoveImage index s) = max 0 (int (length (images s)) - 2)"
    using assms(2,3) by (simp add: handleRemoveImage_def)
  with len k show ?thesis by simp
qed

theorem remove_last_preview_clamps_witness:
  "previewIndex (handleRemoveImage 2
      (editor_init\<lparr>images := [''A'', ''B'', ''C''],
         imageLinks := [Link '''', Link ''x'', Link ''''], previewIndex := 2\<rparr>)) = 1
   \<and> previewIndex (handleRemoveImage 0
      (editor_init\<lparr>images := [''A''], imageLinks := [Link ''''], previewIndex := 0\<rparr>)) = 0"
  using remove_last_preview_clamps
          [of "editor_init\<lparr>images := [''A'', ''B'', ''C''],
                 imageLinks := [Link '''', Link ''x'', Link ''''], previewIndex := 2\<rparr>" 2]
        remove_last_preview_clamps
          [of "editor_init\<lparr>images := [''A''], imageLinks := [Link ''''], previewIndex := 0\<rparr>" 0]
  by (simp add: editor_init_def)

text \<open>
  C6. The check box of the toggle sets \<open>hasImages\<close> and nothing else: \<open>images\<close>,
  \<open>imageLinks\<close> and every other cell stay as they are, whether it is switched off or on.
  Stored images are left out of the emitted block only by a save with the toggle off: a
  save from a state with stored images passes them to \<open>onSave\<close> exactly if the toggle is
  on, and after switching the toggle off it passes neither images nor links.
\<close>

theorem toggle_is_projection:
  "images (setHasImages checked s) = images s
   \<and> imageLinks (setHasImages checked s) = imageLinks s
   \<and> setHasImages checked s = s\<lparr>hasImages := checked\<rparr>
   \<and> (images s \<noteq> [] \<longrightarrow>
        (\<exists>d l. fst (handleSave e s) =
           [OnSave (type s) (content s) d (if hasImages s then Some (images s) else None) l,
            OnClose]))
   \<and> (images s \<noteq> [] \<longrightarrow>
        fst (handleSave e (setHasImages False s)) =
           [OnSave (type s) (content s)
              (if hasDuration s \<and> trim (duration s) \<noteq> [] then Some (duration s) else None)
              None None,
            OnClose])"
  by (simp add: setHasImages_def handleSave_accepts)

theorem toggle_is_projection_witness:
  "images (setHasImages False (editor_init\<lparr>hasImages := True, images := [''A''], imageLinks := [Link '''']\<rparr>))
     = [''A'']
   \<and> fst (handleSave True (editor_init\<lparr>hasImages := True, images := [''A''], imageLinks := [Link '''']\<rparr>))
     = [OnSave Title [] None (Some [''A'']) (Some [Link '''']), OnClose]
   \<and> fst (handleSave True
        (setHasImages False (editor_init\<lparr>hasImages := True, images := [''A''], imageLinks := [Link '''']\<rparr>)))
     = [OnSave Title [] None None None, OnClose]"
  using toggle_is_projection
          [of False "editor_init\<lparr>hasImages := True, images := [''A''], imageLinks := [Link '''']\<rparr>" True]
  by (simp add: editor_init_def handleSave_def handleClose_def setHasImages_def)

section \<open>Properties of the upload\<close>

lemma validate_files_None_iff:
  "validate_files fs = None \<longleftrightarrow>
     (\<forall>f \<in> set fs. file_type f \<in> set validTypes \<and> file_size f \<le> maxSize)"
  by (induction fs) auto

lemma validate_files_failure:
  assumes "validate_files files = Some msg"
  shows "handleFileUpload w token files s = ([Alert msg], s)"
  using assms by (cases files) (simp_all add: handleFileUpload_def)

lemma upload_files_complete:
  assumes "\<forall>k < length fs. completes w token (i + k) (fs ! k)"
  shows "snd (upload_files w token i fs urls) = Some (urls @ successful_refs w token i fs)
       \<and> fetched (fst (upload_files w token i fs urls)) = fs
       \<and> alerts (fst (upload_files w token i fs urls)) = failure_reports w token i fs"
  using assms
proof (induction fs arbitrary: i urls)
  case Nil
  then show ?case by simp
next
  case (Cons f fs)
  from Cons.prems have hd: "completes w token i f" by fastforce
  have tl: "\<forall>k < length fs. completes w token (Suc i + k) (fs ! k)"
  proof (intro allI impI)
    fix k assume "k < length fs"
    then have "Suc k < length (f # fs)" by simp
    with Cons.prems have "completes w token (i + Suc k) ((f # fs) ! Suc k)" by blast
    then show "completes w token (Suc i + k) (fs ! k)" by simp
  qed
  note IH = Cons.IH [OF tl]
  from hd obtain r where r: "fetch w i token f = Some r"
    by (auto simp: completes_def split: option.splits)
  show ?case
  proof (cases "ok r")
    case True
    with hd r obtain u where u: "JSON_imageUrl w (resp_text r) = Some u"
      by (auto simp: completes_def)
    show ?thesis using r True u IH [of "urls @ [u]"] by simp
  next
    case False
    with hd r have "\<exists>e. (if CHR ''{'' \<in> set (resp_text r) then JSON_error w (resp_text r)
        else Some (resp_text r)) = Some e"
      by (cases "CHR ''{'' \<in> set (resp_text r)") (auto simp: completes_def)
    then obtain e where
      e: "(if CHR ''{'' \<in> set (resp_text r) then JSON_error w (resp_text r)
           else Some (resp_text r)) = Some e" ..
    show ?thesis using r False e IH [of urls] by simp
  qed
qed

lemma upload_files_throws:
  assumes "k < length fs" and "\<not> completes w token (i + k) (fs ! k)"
    and "\<forall>j < k. completes w token (i + j) (fs ! j)"
  shows "snd (upload_files w token i fs urls) = None
       \<and> fetched (fst (upload_files w token i fs urls)) = take (Suc k) fs"
  using assms
proof (induction fs arbitrary: i k urls)
  case Nil
  then show ?case by simp
next
  case (Cons f fs)
  show ?case
  proof (cases k)
    case 0
    with Cons.prems have "\<not> completes w token i f" by simp
    then show ?thesis
      using 0 by (auto simp: completes_def split: option.splits if_splits)
  next
    case (Suc m)
    from Cons.prems Suc have hd: "completes w token i f" by fastforce
    have m: "m < length fs" using Cons.prems Suc by simp
    have nm: "\<not> completes w token (Suc i + m) (fs ! m)" using Cons.prems Suc by simp
    have tl: "\<forall>j < m. completes w token (Suc i + j) (fs ! j)"
    proof (intro allI impI)
      fix j assume "j < m"
      then have "Suc j < k" using Suc by simp
      with Cons.prems have "completes w token (i + Suc j) ((f # fs) ! Suc j)" by blast
      then show "completes w token (Suc i + j) (fs ! j)" by simp
    qed
    note IH = Cons.IH [OF m nm tl]
    from hd obtain r where r: "fetch w i token f = Some r"
      by (auto simp: completes_def split: option.splits)
    show ?thesis
    proof (cases "ok r")
      case True
      with hd r obtain u where u: "JSON_imageUrl w (resp_text r) = Some u"
        by (auto simp: completes_def)
      show ?thesis using r True u IH [of "urls @ [u]"] Suc by simp
    next
      case False
      with hd r have "\<exists>e. (if CHR ''{'' \<in> set (resp_text r) then JSON_error w (resp_text r)
          else Some (resp_text r)) = Some e"
        by (cases "CHR ''{'' \<in> set (resp_text r)") (auto simp: completes_def)
      then obtain e where
        e: "(if CHR ''{'' \<in> set (resp_text r) then JSON_error w (resp_text r)
             else Some (resp_text r)) = Some e" ..
      show ?thesis using r False e IH [of urls] Suc by simp
    qed
  qed
qed

lemma fetched_append_alert [simp]: "fetched (fx @ [Alert m]) = fetched fx"
  by (induction fx rule: fetched.induct) simp_all

lemma upload_no_token:
  assumes "validate_files files = None" and "token = None \<or> token = Some []"
  shows "fetched (fst (handleFileUpload w token files s)) = []
       \<and> images (snd (handleFileUpload w token files s)) = images s
       \<and> imageLinks (snd (handleFileUpload w token files s)) = imageLinks s"
  using assms by (auto simp add: handleFileUpload_def)

lemma upload_all_complete:
  assumes "validate_files files = None" and "token = Some t" and "t \<noteq> []"
    and "\<forall>k < length files. completes w t k (files ! k)"
  shows "fetched (fst (handleFileUpload w token files s)) = files
       \<and> alerts (fst (handleFileUpload w token files s)) = failure_reports w t 0 files
       \<and> images (snd (handleFileUpload w token files s)) = images s @ successful_refs w t 0 files
       \<and> imageLinks (snd (handleFileUpload w token files s))
           = (if files = [] then imageLinks s else spread (imageLinks s))
            @ replicate (length (successful_refs w t 0 files)) (Link [])"
proof -
  from assms(4) have "\<forall>k < length files. completes w t (0 + k) (files ! k)" by simp
  from upload_files_complete [OF this, of "[]"]
  obtain fx where up: "upload_files w t 0 files [] = (fx, Some (successful_refs w t 0 files))"
    and fx: "fetched fx = files" "alerts fx = failure_reports w t 0 files"
    by (cases "upload_files w t 0 files []") auto
  have res: "handleFileUpload w token files s =
     (if files = [] then ([], s) else
      (fx, s\<lparr>images := images s @ successful_refs w t 0 files,
            imageLinks :=
              spread (imageLinks s) @ replicate (length (successful_refs w t 0 files)) (Link []),
            isUploading := False\<rparr>))"
    using assms(1-3) up by (simp add: handleFileUpload_def)
  show ?thesis
    using fx by (auto simp add: res)
qed

lemma upload_exception:
  assumes "validate_files files = None" and "token = Some t" and "t \<noteq> []"
    and "k < length files" and "\<not> completes w t k (files ! k)"
    and "\<forall>j < k. completes w t j (files ! j)"
  shows "fetched (fst (handleFileUpload w token files s)) = take (Suc k) files
       \<and> images (snd (handleFileUpload w token files s)) = images s
       \<and> imageLinks (snd (handleFileUpload w token files s)) = imageLinks s"
proof -
  have "\<not> completes w t (0 + k) (files ! k)" and "\<forall>j < k. completes w t (0 + j) (files ! j)"
    using assms by simp_all
  from upload_files_throws [OF assms(4) this, of "[]"]
  obtain fx where up: "upload_files w t 0 files [] = (fx, None)"
    and fx: "fetched fx = take (Suc k) files"
    by (cases "upload_files w t 0 files []") auto
  from assms(4) have "files \<noteq> []" by auto
  then have "handleFileUpload w token files s =
      (fx @ [Alert ''Failed to upload. Check console.''], s\<lparr>isUploading := False\<rparr>)"
    using assms(1-3) up by (simp add: handleFileUpload_def)
  with fx show ?thesis by simp
qed

text \<open>
  C2, as stated: a batch that passes the pre-check is uploaded file by file, and a failed
  upload of file N skips only file N. Two batches of three small PNG files, both passing
  the pre-check, show otherwise. With a token, on a network that rejects the second
  request: the first file is uploaded with success, the failure of the second ends the
  batch, the third file is never sent, and no reference is appended, not even that of
  the first. Without a token: no file is sent at all.
\<close>

theorem upload_failure_can_end_batch:
  "validate_files [png ''a'' 10, png ''b'' 10, png ''c'' 10] = None
   \<and> handleFileUpload world_second_rejects (Some ''tok'')
       [png ''a'' 10, png ''b'' 10, png ''c'' 10] editor_init
     = ([Fetch (png ''a'' 10) ''tok'', Fetch (png ''b'' 10) ''tok'',
         Alert ''Failed to upload. Check console.''],
        editor_init)
   \<and> handleFileUpload world_second_unauthorized None
       [png ''a'' 10, png ''b'' 10, png ''c'' 10] editor_init
     = ([Alert ''Please log in again''], editor_init)"
  by (simp add: handleFileUpload_def world_second_rejects_def world_second_unauthorized_def
        png_def editor_init_def validTypes_def maxSize_def)

text \<open>
  C2, amended. If any file of the batch fails the type or size check, no request is sent
  and the editor state is unchanged. If all files pass it:
  \<^item> without a token (none, or the empty string) no request is sent and \<open>images\<close> and
    \<open>imageLinks\<close> are unchanged;
  \<^item> with a token, and every request completing (an answer arrives and its body is read
    without an exception), the files are sent one at a time in their order, each answer
    that is not ok is reported and skips only its own file, and exactly the references of
    the successful uploads are appended to \<open>images\<close>, with as many empty links appended
    to a copy of \<open>imageLinks\<close> (the spread, in which a hole has become \<open>undefined\<close>;
    an empty selection returns at once and copies nothing);
  \<^item> with a token, and the request of file \<open>k\<close> the first that does not complete, the
    files after \<open>k\<close> are not sent and \<open>images\<close> and \<open>imageLinks\<close> are unchanged.
\<close>

theorem upload_batch_outcomes:
  "((\<exists>f \<in> set files. file_type f \<notin> set validTypes \<or> file_size f > maxSize) \<longrightarrow>
      fetched (fst (handleFileUpload w token files s)) = []
      \<and> snd (handleFileUpload w token files s) = s)
   \<and> ((\<forall>f \<in> set files. file_type f \<in> set validTypes \<and> file_size f \<le> maxSize)
        \<and> (token = None \<or> token = Some []) \<longrightarrow>
      fetched (fst (handleFileUpload w token files s)) = []
      \<and> images (snd (handleFileUpload w token files s)) = images s
      \<and> imageLinks (snd (handleFileUpload w token files s)) = imageLinks s)
   \<and> ((\<forall>f \<in> set files. file_type f \<in> set validTypes \<and> file_size f \<le> maxSize)
        \<and> token = Some t \<and> t \<noteq> []
        \<and> (\<forall>k < length files. completes w t k (files ! k)) \<longrightarrow>
      fetched (fst (handleFileUpload w token files s)) = files
      \<and> alerts (fst (handleFileUpload w token files s)) = failure_reports w t 0 files
      \<and> images (snd (handleFileUpload w token files s)) = images s @ successful_refs w t 0 files
      \<and> imageLinks (snd (handleFileUpload w token files s))
          = (if files = [] then imageLinks s else spread (imageLinks s))
            @ replicate (length (successful_refs w t 0 files)) (Link []))
   \<and> ((\<forall>f \<in> set files. file_type f \<in> set validTypes \<and> file_size f \<le> maxSize)
        \<and> token = Some t \<and> t \<noteq> []
        \<and> k < length files \<and> \<not> completes w t k (files ! k)
        \<and> (\<forall>j < k. completes w t j (files ! j)) \<longrightarrow>
      fetched (fst (handleFileUpload w token files s)) = take (Suc k) files
      \<and> images (snd (handleFileUpload w token files s)) = images s
      \<and> imageLinks (snd (handleFileUpload w token files s)) = imageLinks s)"
proof (intro conjI)
  show "(\<exists>f \<in> set files. file_type f \<notin> set validTypes \<or> file_size f > maxSize) \<longrightarrow>
      fetched (fst (handleFileUpload w token files s)) = []
      \<and> snd (handleFileUpload w token files s) = s"
  proof
    assume "\<exists>f \<in> set files. file_type f \<notin> set validTypes \<or> file_size f > maxSize"
    then have "\<not> (\<forall>f \<in> set files. file_type f \<in> set validTypes \<and> file_size f \<le> maxSize)"
      by (metis not_le)
    then have "validate_files files \<noteq> None"
      by (simp only: validate_files_None_iff not_False_eq_True)
    then obtain msg where "validate_files files = Some msg" by auto
    then have "handleFileUpload w token files s = ([Alert msg], s)"
      by (rule validate_files_failure)
    then show "fetched (fst (handleFileUpload w token files s)) = []
      \<and> snd (handleFileUpload w token files s) = s"
      by simp
  qed
next
  show "(\<forall>f \<in> set files. file_type f \<in> set validTypes \<and> file_size f \<le> maxSize)
        \<and> (token = None \<or> token = Some []) \<longrightarrow>
      fetched (fst (handleFileUpload w token files s)) = []
      \<and> images (snd (handleFileUpload w token files s)) = images s
      \<and> imageLinks (snd (handleFileUpload w token files s)) = imageLinks s"
    using upload_no_token [of files token w s] by (simp add: validate_files_None_iff)
next
  show "(\<forall>f \<in> set files. file_type f \<in> set validTypes \<and> file_size f \<le> maxSize)
        \<and> token = Some t \<and> t \<noteq> []
        \<and> (\<forall>k < length files. completes w t k (files ! k)) \<longrightarrow>
      fetched (fst (handleFileUpload w token files s)) = files
      \<and> alerts (fst (handleFileUpload w token files s)) = failure_reports w t 0 files
      \<and> images (snd (handleFileUpload w token files s)) = images s @ successful_refs w t 0 files
      \<and> imageLinks (snd (handleFileUpload w token files s))
          = (if files = [] then imageLinks s else spread (imageLinks s))
            @ replicate (length (successful_refs w t 0 files)) (Link [])"
    using upload_all_complete [of files token t w s] by (simp add: validate_files_None_iff)
next
  show "(\<forall>f \<in> set files. file_type f \<in> set validTypes \<and> file_size f \<le> maxSize)
        \<and> token = Some t \<and> t \<noteq> []
        \<and> k < length files \<and> \<not> completes w t k (files ! k)
        \<and> (\<forall>j < k. completes w t j (files ! j)) \<longrightarrow>
      fetched (fst (handleFileUpload w token files s)) = take (Suc k) files
      \<and> images (snd (handleFileUpload w token files s)) = images s
      \<and> imageLinks (snd (handleFileUpload w token files s)) = imageLinks s"
    using upload_exception [of files token t k w s] by (simp add: validate_files_None_iff)
qed

theorem upload_batch_outcomes_witness:
  "completes world_second_unauthorized ''tok'' 0 (png ''a'' 10)
   \<and> completes world_second_unauthorized ''tok'' 1 (png ''b'' 10)
   \<and> completes world_second_unauthorized ''tok'' 2 (png ''c'' 10)
   \<and> fetched (fst (handleFileUpload world_second_unauthorized (Some ''tok'')
        [png ''a'' 10, png ''b'' 10, png ''c'' 10] editor_init))
       = [png ''a'' 10, png ''b'' 10, png ''c'' 10]
   \<and> alerts (fst (handleFileUpload world_second_unauthorized (Some ''tok'')
        [png ''a'' 10, png ''b'' 10, png ''c'' 10] editor_init))
       = [''Failed to upload b: Unauthorized'']
   \<and> images (snd (handleFileUpload world_second_unauthorized (Some ''tok'')
        [png ''a'' 10, png ''b'' 10, png ''c'' 10] editor_init))
       = [''data:a'', ''data:c'']
   \<and> imageLinks (snd (handleFileUpload world_second_unauthorized (Some ''tok'')
        [png ''a'' 10, png ''b'' 10, png ''c'' 10] editor_init))
       = [Link '''', Link '''']
   \<and> fetched (fst (handleFileUpload world_second_unauthorized (Some ''tok'')
        [png ''a'' 10, png ''b'' (6 * 1024 * 1024), png ''c'' 10] editor_init)) = []
   \<and> fetched (fst (handleFileUpload world_second_unauthorized None
        [png ''a'' 10, png ''b'' 10, png ''c'' 10] editor_init)) = []
   \<and> \<not> completes world_second_rejects ''tok'' 1 ([png ''a'' 10, png ''b'' 10, png ''c'' 10] ! 1)
   \<and> fetched (fst (handleFileUpload world_second_rejects (Some ''tok'')
        [png ''a'' 10, png ''b'' 10, png ''c'' 10] editor_init))
       = [png ''a'' 10, png ''b'' 10]"
  using upload_batch_outcomes
          [of "[png ''a'' 10, png ''b'' 10, png ''c'' 10]" world_second_unauthorized
              "Some ''tok''" editor_init "''tok''" 0]
        upload_batch_outcomes
          [of "[png ''a'' 10, png ''b'' (6 * 1024 * 1024), png ''c'' 10]" world_second_unauthorized
              "Some ''tok''" editor_init "''tok''" 0]
        upload_batch_outcomes
          [of "[png ''a'' 10, png ''b'' 10, png ''c'' 10]" world_second_unauthorized
              None editor_init "''tok''" 0]
        upload_batch_outcomes
          [of "[png ''a'' 10, png ''b'' 10, png ''c'' 10]" world_second_rejects
              "Some ''tok''" editor_init "''tok''" 1]
  by (simp add: world_second_unauthorized_def world_second_rejects_def png_def editor_init_def
        validTypes_def maxSize_def completes_def All_less_Suc handleFileUpload_def spread_def)

text \<open>
  C10. The check of the editor before an upload and the validation of the upload
  endpoint accept the same files: the two lists of types are the same five MIME types,
  the two size limits are both \<open>5 * 1024 * 1024\<close> bytes with files above it rejected, and
  a file passes the editor's check exactly if an authorized request carrying it is not
  answered with a validation error (status 400). A whole batch passes the editor's check
  exactly if the endpoint accepts each of its files.
\<close>

theorem client_server_validation_agree:
  "set validTypes = {''image/jpeg'', ''image/jpg'', ''image/png'', ''image/gif'', ''image/webp''}
   \<and> set POST_validTypes
       = {''image/jpeg'', ''image/jpg'', ''image/png'', ''image/gif'', ''image/webp''}
   \<and> maxSize = 5 * 1024 * 1024 \<and> POST_maxSize = 5 * 1024 * 1024
   \<and> (validate_files [f] = None)
       = (file_type f \<in> {''image/jpeg'', ''image/jpg'', ''image/png'', ''image/gif'', ''image/webp''}
          \<and> file_size f \<le> 5 * 1024 * 1024)
   \<and> (fst (POST_upload base64 True (Some (Some f))) \<noteq> 400)
       = (file_type f \<in> {''image/jpeg'', ''image/jpg'', ''image/png'', ''image/gif'', ''image/webp''}
          \<and> file_size f \<le> 5 * 1024 * 1024)
   \<and> (validate_files [f] = None) = (fst (POST_upload base64 True (Some (Some f))) \<noteq> 400)
   \<and> (validate_files fs = None)
       = (\<forall>g \<in> set fs. fst (POST_upload base64 True (Some (Some g))) \<noteq> 400)"
proof -
  have srv: "(fst (POST_upload base64 True (Some (Some g))) \<noteq> 400)
       = (file_type g \<in> set validTypes \<and> file_size g \<le> maxSize)" for g
    by (simp add: POST_upload_def validTypes_def POST_validTypes_def maxSize_def POST_maxSize_def
          split: option.splits)
  have cli: "(validate_files [g] = None) = (file_type g \<in> set validTypes \<and> file_size g \<le> maxSize)"
    for g
    by (simp add: validate_files_None_iff)
  have batch: "(validate_files fs = None)
       = (\<forall>g \<in> set fs. fst (POST_upload base64 True (Some (Some g))) \<noteq> 400)"
    by (simp only: validate_files_None_iff srv)
  have types: "set validTypes
      = {''image/jpeg'', ''image/jpg'', ''image/png'', ''image/gif'', ''image/webp''}"
    by (simp add: validTypes_def)
  have types': "set POST_validTypes
      = {''image/jpeg'', ''image/jpg'', ''image/png'', ''image/gif'', ''image/webp''}"
    by (simp add: POST_validTypes_def)
  have sz: "maxSize = 5 * 1024 * 1024" and sz': "POST_maxSize = 5 * 1024 * 1024"
    by (simp_all add: maxSize_def POST_maxSize_def)
  show ?thesis
    using srv [of f] cli [of f] batch unfolding types sz
    by (simp only: types' sz' simp_thms)
qed

theorem client_server_validation_agree_witness:
  "validate_files [png ''a'' 10] = None
   \<and> fst (POST_upload (\<lambda>f. Some ''QQ=='') True (Some (Some (png ''a'' 10)))) \<noteq> 400
   \<and> validate_files [png ''b'' (6 * 1024 * 1024)] \<noteq> None
   \<and> fst (POST_upload (\<lambda>f. Some ''QQ=='') True (Some (Some (png ''b'' (6 * 1024 * 1024))))) = 400
   \<and> validate_files [png ''a'' 10, png ''c'' 10] = None
   \<and> fst (POST_upload (\<lambda>f. Some ''QQ=='') True (Some (Some (png ''c'' 10)))) \<noteq> 400"
  using client_server_validation_agree [of "png ''a'' 10" "\<lambda>f. Some ''QQ==''" "[png ''a'' 10, png ''c'' 10]"]
        client_server_validation_agree
          [of "png ''b'' (6 * 1024 * 1024)" "\<lambda>f. Some ''QQ==''" "[png ''a'' 10, png ''c'' 10]"]
  by (simp add: png_def POST_upload_def POST_validTypes_def POST_maxSize_def validTypes_def
        maxSize_def)

section \<open>Properties of the profile endpoint\<close>

text \<open>
  C9. \<open>GET\<close> of the profile never hands a backend failure to the caller: whatever the
  backend does, the reply is a normal one (status 200) carrying a document. If any call
  to the backend throws, the document is the built-in default. On first access, with no
  table or no row and a working backend, the default document is stored, under the next
  id of the sequence, and returned (and if only storing it fails, it is still returned).
  A stored document is returned as it is.
\<close>

theorem profile_GET_falls_back:
  "fst (snd (GET defaultProfile fl db)) = 200
   \<and> ((\<exists>x. snd (GET_try defaultProfile fl db) = Inl x) \<longrightarrow>
        snd (GET defaultProfile fl db) = (200, defaultProfile))
   \<and> (neon_fails fl \<or> create_fails fl \<or> select_fails fl \<longrightarrow>
        snd (GET defaultProfile fl db) = (200, defaultProfile))
   \<and> ((db = None \<or> db = Some (n, [])) \<longrightarrow>
        snd (GET defaultProfile fl db) = (200, defaultProfile))
   \<and> (\<not> neon_fails fl \<and> \<not> create_fails fl \<and> \<not> select_fails fl \<and> \<not> insert_fails fl
        \<and> db = None \<longrightarrow>
        GET defaultProfile fl db = (Some (1, [(1, defaultProfile)]), (200, defaultProfile)))
   \<and> (\<not> neon_fails fl \<and> \<not> create_fails fl \<and> \<not> select_fails fl \<and> \<not> insert_fails fl
        \<and> db = Some (n, []) \<longrightarrow>
        GET defaultProfile fl db
          = (Some (Suc n, [(Suc n, defaultProfile)]), (200, defaultProfile)))
   \<and> (\<not> neon_fails fl \<and> \<not> create_fails fl \<and> \<not> select_fails fl \<and> db = Some (n, [(i, d)]) \<longrightarrow>
        GET defaultProfile fl db = (Some (n, [(i, d)]), (200, d)))"
proof (intro conjI impI)
  show "fst (snd (GET defaultProfile fl db)) = 200"
    by (simp add: GET_def GET_try_def Let_def split: list.splits)
next
  assume "\<exists>x. snd (GET_try defaultProfile fl db) = Inl x"
  then show "snd (GET defaultProfile fl db) = (200, defaultProfile)"
    by (auto simp add: GET_def split: prod.splits sum.splits)
next
  assume "neon_fails fl \<or> create_fails fl \<or> select_fails fl"
  then show "snd (GET defaultProfile fl db) = (200, defaultProfile)"
    by (auto simp add: GET_def GET_try_def Let_def)
next
  assume "db = None \<or> db = Some (n, [])"
  then show "snd (GET defaultProfile fl db) = (200, defaultProfile)"
    by (auto simp add: GET_def GET_try_def Let_def create_table_def select_latest_def)
next
  assume "\<not> neon_fails fl \<and> \<not> create_fails fl \<and> \<not> select_fails fl \<and> \<not> insert_fails fl
        \<and> db = None"
  then show "GET defaultProfile fl db
      = (Some (1, [(1, defaultProfile)]), (200, defaultProfile))"
    by (simp add: GET_def GET_try_def Let_def create_table_def select_latest_def insert_row_def)
next
  assume "\<not> neon_fails fl \<and> \<not> create_fails fl \<and> \<not> select_fails fl \<and> \<not> insert_fails fl
        \<and> db = Some (n, [])"
  then show "GET defaultProfile fl db
      = (Some (Suc n, [(Suc n, defaultProfile)]), (200, defaultProfile))"
    by (simp add: GET_def GET_try_def Let_def create_table_def select_latest_def insert_row_def)
next
  assume "\<not> neon_fails fl \<and> \<not> create_fails fl \<and> \<not> select_fails fl \<and> db = Some (n, [(i, d)])"
  then show "GET defaultProfile fl db = (Some (n, [(i, d)]), (200, d))"
    by (simp add: GET_def GET_try_def Let_def create_table_def select_latest_def)
qed

theorem profile_GET_falls_back_witness:
  "snd (GET_try ''default''
      \<lparr>neon_fails = False, create_fails = False, select_fails = True, insert_fails = False\<rparr>
      (Some (1, [(1, ''stored'')]))) = Inl Exn
   \<and> snd (GET ''default''
      \<lparr>neon_fails = False, create_fails = False, select_fails = True, insert_fails = False\<rparr>
      (Some (1, [(1, ''stored'')]))) = (200, ''default'')
   \<and> GET ''default''
      \<lparr>neon_fails = False, create_fails = False, select_fails = False, insert_fails = False\<rparr>
      None = (Some (1, [(1, ''default'')]), (200, ''default''))
   \<and> GET ''default''
      \<lparr>neon_fails = False, create_fails = False, select_fails = False, insert_fails = False\<rparr>
      (Some (4, [])) = (Some (5, [(5, ''default'')]), (200, ''default''))
   \<and> GET ''default''
      \<lparr>neon_fails = False, create_fails = False, select_fails = False, insert_fails = False\<rparr>
      (Some (1, [(1, ''stored'')])) = (Some (1, [(1, ''stored'')]), (200, ''stored''))"
  using profile_GET_falls_back
          [where defaultProfile = "''default''"
             and fl = "\<lparr>neon_fails = False, create_fails = False, select_fails = True,
                         insert_fails = False\<rparr>"
             and db = "Some (1, [(1, ''stored'')])" and n = 1 and i = 1 and d = "''stored''"]
        profile_GET_falls_back
          [where defaultProfile = "''default''"
             and fl = "\<lparr>neon_fails = False, create_fails = False, select_fails = False,
                         insert_fails = False\<rparr>"
             and db = None and n = 1 and i = 1 and d = "''stored''"]
        profile_GET_falls_back
          [where defaultProfile = "''default''"
             and fl = "\<lparr>neon_fails = False, create_fails = False, select_fails = False,
                         insert_fails = False\<rparr>"
             and db = "Some (4, [])" and n = 4 and i = 1 and d = "''stored''"]
        profile_GET_falls_back
          [where defaultProfile = "''default''"
             and fl = "\<lparr>neon_fails = False, create_fails = False, select_fails = False,
                         insert_fails = False\<rparr>"
             and db = "Some (1, [(1, ''stored'')])" and n = 1 and i = 1 and d = "''stored''"]
  by (simp add: GET_try_def)

end
